theory Spec2Isabelle
  imports Main
begin

section \<open>pyan: the command surface \<^verbatim>\<open>main\<close>\<close>

text \<open>
  The development embeds \<^verbatim>\<open>pyan/main.py\<close>. The function \<^verbatim>\<open>main\<close> declares the
  command-line options, checks that there are input files, derives the presentation
  options and the logger, builds the analysis (\<^verbatim>\<open>CallGraphVisitor\<close>), optionally
  narrows it to a focus (\<^verbatim>\<open>get_node\<close>, \<^verbatim>\<open>filter\<close>), builds the presentation graph
  (\<^verbatim>\<open>VisualGraph.from_visitor\<close>) and runs the writers that were asked for.

  The analyzer, the presentation builder and the writers live in other modules. They
  enter the model as the fields of an environment record, and every call \<^verbatim>\<open>main\<close> makes
  to them is written to a trace, in the order of the calls.
\<close>

subsection \<open>Strings: \<^verbatim>\<open>str.split\<close> and \<^verbatim>\<open>str.join\<close>\<close>

text \<open>
  \<^verbatim>\<open>s.split(".")\<close> cuts \<open>s\<close> at every occurrence of the separator and always returns at
  least one segment (\<^verbatim>\<open>"".split(".") == [""]\<close>, \<^verbatim>\<open>"a.".split(".") == ["a", ""]\<close>).
  The scan keeps the segment read so far in \<open>cur\<close>. The separator of \<^verbatim>\<open>main\<close> is the
  one-character string \<^verbatim>\<open>"."\<close>, so the model takes a character.
\<close>

fun split_from :: "char \<Rightarrow> string \<Rightarrow> string \<Rightarrow> string list" where
  "split_from sep cur [] = [cur]"
| "split_from sep cur (c # cs) =
     (if c = sep then cur # split_from sep [] cs else split_from sep (cur @ [c]) cs)"

definition str_split :: "char \<Rightarrow> string \<Rightarrow> string list" where
  "str_split sep s = split_from sep [] s"

text \<open>\<^verbatim>\<open>sep.join(xs)\<close>: the elements of \<open>xs\<close> with \<open>sep\<close> between neighbours.\<close>

fun str_join :: "string \<Rightarrow> string list \<Rightarrow> string" where
  "str_join sep [] = []"
| "str_join sep [x] = x"
| "str_join sep (x # y # ys) = x @ sep @ str_join sep (y # ys)"

subsection \<open>The option table (lines 26 to 88) and \<^verbatim>\<open>parse_args\<close> (line 90)\<close>

text \<open>
  The attributes of the \<^verbatim>\<open>options\<close> object, one per \<^verbatim>\<open>dest\<close>. A \<^verbatim>\<open>store_true\<close> or
  \<^verbatim>\<open>store_false\<close> destination holds a boolean; a \<^verbatim>\<open>store\<close> destination holds
  \<^verbatim>\<open>None\<close> or a string. The attribute \<^verbatim>\<open>function\<close> is written \<open>function'\<close>.
\<close>

record options =
  dot :: bool
  tgf :: bool
  svg :: bool
  html :: bool
  yed :: bool
  filename :: "string option"
  namespace :: "string option"
  function' :: "string option"
  logname :: "string option"
  verbose :: bool
  very_verbose :: bool
  draw_defines :: bool
  draw_uses :: bool
  colored :: bool
  grouped_alt :: bool
  grouped :: bool
  nested_groups :: bool
  rankdir :: string
  annotated :: bool

text \<open>
  One constructor per \<^verbatim>\<open>add_option\<close> call, in the order of the source; an option
  that takes a value carries it. An invocation is the list of the option occurrences
  on the command line, in order, together with its positional arguments. Cutting the
  raw argument vector into occurrences, the usage errors of that step and
  \<^verbatim>\<open>--help\<close> are the library's business and happen before line 90 returns.
\<close>

datatype flag =
    Dot | Tgf | Svg | Html | Yed
  | File string | Namespace string | Function string | Log string
  | Verbose | Very_verbose
  | Defines | No_defines | Uses | No_uses
  | Colored | Grouped_alt | Grouped | Nested_groups
  | Dot_rankdir string
  | Annotated

text \<open>
  The \<^verbatim>\<open>default=\<close> of every destination. \<^verbatim>\<open>--log\<close> declares none, which optparse
  reads as \<^verbatim>\<open>None\<close>.
\<close>

definition default_options :: options where
  "default_options =
     \<lparr> dot = False, tgf = False, svg = False, html = False, yed = False,
       filename = None, namespace = None, function' = None, logname = None,
       verbose = False, very_verbose = False,
       draw_defines = True, draw_uses = True,
       colored = False, grouped_alt = False, grouped = False, nested_groups = False,
       rankdir = ''TB'', annotated = False \<rparr>"

text \<open>The \<^verbatim>\<open>action=\<close> of every option, applied to its \<^verbatim>\<open>dest\<close>.\<close>

fun apply_flag :: "flag \<Rightarrow> options \<Rightarrow> options" where
  "apply_flag Dot opts = opts\<lparr>dot := True\<rparr>"
| "apply_flag Tgf opts = opts\<lparr>tgf := True\<rparr>"
| "apply_flag Svg opts = opts\<lparr>svg := True\<rparr>"
| "apply_flag Html opts = opts\<lparr>html := True\<rparr>"
| "apply_flag Yed opts = opts\<lparr>yed := True\<rparr>"
| "apply_flag (File s) opts = opts\<lparr>filename := Some s\<rparr>"
| "apply_flag (Namespace s) opts = opts\<lparr>namespace := Some s\<rparr>"
| "apply_flag (Function s) opts = opts\<lparr>function' := Some s\<rparr>"
| "apply_flag (Log s) opts = opts\<lparr>logname := Some s\<rparr>"
| "apply_flag Verbose opts = opts\<lparr>verbose := True\<rparr>"
| "apply_flag Very_verbose opts = opts\<lparr>very_verbose := True\<rparr>"
| "apply_flag Defines opts = opts\<lparr>draw_defines := True\<rparr>"
| "apply_flag No_defines opts = opts\<lparr>draw_defines := False\<rparr>"
| "apply_flag Uses opts = opts\<lparr>draw_uses := True\<rparr>"
| "apply_flag No_uses opts = opts\<lparr>draw_uses := False\<rparr>"
| "apply_flag Colored opts = opts\<lparr>colored := True\<rparr>"
| "apply_flag Grouped_alt opts = opts\<lparr>grouped_alt := True\<rparr>"
| "apply_flag Grouped opts = opts\<lparr>grouped := True\<rparr>"
| "apply_flag Nested_groups opts = opts\<lparr>nested_groups := True\<rparr>"
| "apply_flag (Dot_rankdir s) opts = opts\<lparr>rankdir := s\<rparr>"
| "apply_flag Annotated opts = opts\<lparr>annotated := True\<rparr>"

text \<open>Occurrences take effect from left to right, starting from the defaults.\<close>

fun apply_flags :: "flag list \<Rightarrow> options \<Rightarrow> options" where
  "apply_flags [] opts = opts"
| "apply_flags (f # fs) opts = apply_flags fs (apply_flag f opts)"

definition parse_args :: "flag list \<Rightarrow> options" where
  "parse_args flags = apply_flags flags default_options"

text \<open>
  Python's truth test on an attribute that is \<^verbatim>\<open>None\<close> or a string
  (\<^verbatim>\<open>if options.function\<close>, \<^verbatim>\<open>if options.logname\<close>): \<^verbatim>\<open>None\<close> and the empty
  string are false.
\<close>

fun truthy :: "string option \<Rightarrow> bool" where
  "truthy (Some (c # cs)) = True"
| "truthy _ = False"

subsection \<open>Lines 97 to 120: implied options, presentation options, logger\<close>

definition imply_grouped :: "options \<Rightarrow> options" where
  "imply_grouped opts = (if nested_groups opts then opts\<lparr>grouped := True\<rparr> else opts)"

text \<open>The dictionary \<^verbatim>\<open>graph_options\<close>, with its keys in the order of the literal.\<close>

definition graph_options :: "options \<Rightarrow> (string \<times> bool) list" where
  "graph_options opts =
     [(''draw_defines'', draw_defines opts),
      (''draw_uses'', draw_uses opts),
      (''colored'', colored opts),
      (''grouped_alt'', grouped_alt opts),
      (''grouped'', grouped opts),
      (''nested_groups'', nested_groups opts),
      (''annotated'', annotated opts)]"

datatype level = NOTSET | DEBUG | INFO | WARN

datatype handler = StreamHandler | FileHandler string

record logger =
  level :: level
  handlers :: "handler list"

text \<open>\<^verbatim>\<open>logging.getLogger(__name__)\<close> at the start of the process.\<close>

definition getLogger :: logger where
  "getLogger = \<lparr> level = NOTSET, handlers = [] \<rparr>"

definition setLevel :: "level \<Rightarrow> logger \<Rightarrow> logger" where
  "setLevel l lg = lg\<lparr>level := l\<rparr>"

definition addHandler :: "handler \<Rightarrow> logger \<Rightarrow> logger" where
  "addHandler h lg = lg\<lparr>handlers := handlers lg @ [h]\<rparr>"

definition setup_logger :: "options \<Rightarrow> logger" where
  "setup_logger opts =
     (let logger = getLogger;
          logger = (if very_verbose opts then setLevel DEBUG logger
                    else if verbose opts then setLevel INFO logger
                    else setLevel WARN logger);
          logger = addHandler StreamHandler logger
      in case logname opts of
           Some (c # cs) \<Rightarrow> addHandler (FileHandler (c # cs)) logger
         | _ \<Rightarrow> logger)"

subsection \<open>The collaborators and the trace\<close>

text \<open>
  What \<^verbatim>\<open>main\<close> calls outside its own module. \<open>glob\<close> is the file system as
  \<^verbatim>\<open>glob.glob\<close> shows it. \<open>CallGraphVisitor\<close> builds the analysis of a file list;
  \<open>get_node\<close> is its lookup, which can fail; \<open>filter_visitor\<close> is \<^verbatim>\<open>v.filter\<close>, which
  changes the visitor in place and so returns the changed one here; \<open>from_visitor\<close>
  is \<^verbatim>\<open>VisualGraph.from_visitor\<close>. The types of a visitor \<open>'v\<close>, a node \<open>'n\<close>, a
  presentation graph \<open>'g\<close> and a lookup failure \<open>'e\<close> are left open.
\<close>

record ('v, 'n, 'g, 'e) env =
  glob :: "string \<Rightarrow> string list"
  CallGraphVisitor :: "string list \<Rightarrow> logger \<Rightarrow> 'v"
  get_node :: "'v \<Rightarrow> string \<Rightarrow> string \<Rightarrow> 'e + 'n"
  filter_visitor :: "'v \<Rightarrow> 'n option \<Rightarrow> string option \<Rightarrow> 'v"
  from_visitor :: "'v \<Rightarrow> (string \<times> bool) list \<Rightarrow> logger \<Rightarrow> 'g"

text \<open>
  A writer object, as constructed: the graph, the \<^verbatim>\<open>options=\<close> list where the
  call passes one, \<^verbatim>\<open>output=\<close> and the logger.
\<close>

datatype 'g writer =
    DotWriter 'g "string list" "string option" logger
  | HTMLWriter 'g "string list" "string option" logger
  | SVGWriter 'g "string list" "string option" logger
  | TgfWriter 'g "string option" logger
  | YedWriter 'g "string option" logger

text \<open>
  The calls of \<^verbatim>\<open>main\<close>, with the visitor they act on and their arguments:
  the constructor, \<^verbatim>\<open>v.get_node(namespace, function_name)\<close>,
  \<^verbatim>\<open>v.filter(node=, namespace=)\<close>, \<^verbatim>\<open>VisualGraph.from_visitor(v, options=, logger=)\<close>
  and \<^verbatim>\<open>writer.run()\<close>.
\<close>

datatype ('v, 'n, 'g) event =
    E_CallGraphVisitor "string list" logger
  | E_get_node 'v string string
  | E_filter 'v "'n option" "string option"
  | E_from_visitor 'v "(string \<times> bool) list" logger
  | E_run "'g writer"

text \<open>
  How a run ends: \<^verbatim>\<open>main\<close> returns, \<^verbatim>\<open>parser.error(msg)\<close> prints the usage and the
  message and exits with status 2, or the lookup's failure leaves \<^verbatim>\<open>main\<close> as an
  exception.
\<close>

datatype 'e outcome = Returned | ParserError string | Raised 'e

subsection \<open>Lines 123 to 130: the focus and the filter\<close>

definition function_name :: "string \<Rightarrow> string" where
  "function_name f = last (str_split CHR ''.'' f)"

definition focus_namespace :: "string \<Rightarrow> string" where
  "focus_namespace f = str_join ''.'' (butlast (str_split CHR ''.'' f))"

text \<open>
  Lines 124 to 129: the node to filter for. A true \<^verbatim>\<open>options.function\<close> is looked
  up; otherwise the node is \<^verbatim>\<open>None\<close>.
\<close>

fun focus_node ::
  "('v, 'n, 'g, 'e) env \<Rightarrow> 'v \<Rightarrow> string option \<Rightarrow> ('v, 'n, 'g) event list \<times> ('e + 'n option)"
where
  "focus_node env v (Some (c # cs)) =
     (let function_name = function_name (c # cs);
          namespace = focus_namespace (c # cs)
      in ([E_get_node v namespace function_name],
          case get_node env v namespace function_name of
            Inl e \<Rightarrow> Inl e
          | Inr node \<Rightarrow> Inr (Some node)))"
| "focus_node env v _ = ([], Inr None)"

definition select ::
  "('v, 'n, 'g, 'e) env \<Rightarrow> 'v \<Rightarrow> options \<Rightarrow> ('v, 'n, 'g) event list \<times> ('e + 'v)"
where
  "select env v opts =
     (if truthy (function' opts) \<or> truthy (namespace opts) then
        (case focus_node env v (function' opts) of
           (t, Inl e) \<Rightarrow> (t, Inl e)
         | (t, Inr node) \<Rightarrow>
             (t @ [E_filter v node (namespace opts)],
              Inr (filter_visitor env v node (namespace opts))))
      else ([], Inr v))"

subsection \<open>Lines 133 to 165: the writers\<close>

definition writers :: "options \<Rightarrow> 'g \<Rightarrow> logger \<Rightarrow> 'g writer list" where
  "writers opts graph logger =
     (if dot opts
      then [DotWriter graph [''rankdir='' @ rankdir opts] (filename opts) logger] else []) @
     (if html opts
      then [HTMLWriter graph [''rankdir='' @ rankdir opts] (filename opts) logger] else []) @
     (if svg opts
      then [SVGWriter graph [''rankdir='' @ rankdir opts] (filename opts) logger] else []) @
     (if tgf opts then [TgfWriter graph (filename opts) logger] else []) @
     (if yed opts then [YedWriter graph (filename opts) logger] else [])"

subsection \<open>\<^verbatim>\<open>main\<close>\<close>

definition main ::
  "('v, 'n, 'g, 'e) env \<Rightarrow> flag list \<Rightarrow> string list \<Rightarrow> ('v, 'n, 'g) event list \<times> 'e outcome"
where
  "main env flags args =
     (let opts = parse_args flags;
          filenames = concat (map (glob env) args)
      in if length args = 0
         then ([], ParserError ''Need one or more filenames to process'')
         else if length args > 0 \<and> length filenames = 0
         then ([], ParserError (''No files found matching given glob: '' @ str_join '' '' args))
         else
           (let opts = imply_grouped opts;
                graph_options = graph_options opts;
                logger = setup_logger opts;
                v = CallGraphVisitor env filenames logger
            in case select env v opts of
                 (t, Inl e) \<Rightarrow> (E_CallGraphVisitor filenames logger # t, Raised e)
               | (t, Inr v') \<Rightarrow>
                   (let graph = from_visitor env v' graph_options logger
                    in (E_CallGraphVisitor filenames logger # t
                          @ [E_from_visitor v' graph_options logger]
                          @ map E_run (writers opts graph logger),
                        Returned))))"

subsection \<open>The analyzer's lookup\<close>

text \<open>
  Modelled from the spec: \<^verbatim>\<open>CallGraphVisitor.get_node\<close>, the lookup that \<^verbatim>\<open>main\<close> calls
  at line 127, is defined in the analyzer module, which is not among the sources. The
  definitions below follow the specification's words. An entity has a kind, a
  qualified name (a dot-separated path), a declaring file and a declaring line; its
  display name is the last segment of the qualified name. The symbol table holds the
  entities. \<open>lookup namespace name\<close> returns the entity whose qualified name is
  \<open>namespace + "." + name\<close> or, when the namespace is empty, the top-level entity
  named \<open>name\<close>; it fails with \<open>NotFound\<close> when no entity or more than one matches.
\<close>

datatype kind = Module | Class | Function_kind | Method

record entity =
  kind :: kind
  qualified_name :: string
  declaring_file :: string
  declaring_line :: nat

definition display_name :: "entity \<Rightarrow> string" where
  "display_name e = last (str_split CHR ''.'' (qualified_name e))"

definition top_level :: "entity \<Rightarrow> bool" where
  "top_level e = (length (str_split CHR ''.'' (qualified_name e)) = 1)"

definition matches :: "string \<Rightarrow> string \<Rightarrow> entity \<Rightarrow> bool" where
  "matches ns n e =
     (if ns = [] then top_level e \<and> display_name e = n
      else qualified_name e = ns @ ''.'' @ n)"

datatype lookup_error = NotFound

definition lookup :: "entity list \<Rightarrow> string \<Rightarrow> string \<Rightarrow> lookup_error + entity" where
  "lookup table ns n =
     (case filter (matches ns n) table of
        [e] \<Rightarrow> Inr e
      | _ \<Rightarrow> Inl NotFound)"

subsection \<open>An example environment\<close>

text \<open>
  A file system with the one file \<^verbatim>\<open>a.py\<close>, and an analysis whose symbol table holds
  the module \<open>a\<close>, its function \<open>a.f\<close> and its class \<open>a.K\<close> with the method
  \<open>a.K.run\<close>. The lookup is \<open>lookup\<close>; the example filter keeps the entities under
  the namespace prefix and the focus node; the example builder pairs the table with
  the options it was given. The concrete runs below are evaluated in it.
\<close>

definition example_table :: "entity list" where
  "example_table =
     [\<lparr> kind = Module, qualified_name = ''a'', declaring_file = ''a.py'', declaring_line = 1 \<rparr>,
      \<lparr> kind = Function_kind, qualified_name = ''a.f'', declaring_file = ''a.py'', declaring_line = 3 \<rparr>,
      \<lparr> kind = Class, qualified_name = ''a.K'', declaring_file = ''a.py'', declaring_line = 7 \<rparr>,
      \<lparr> kind = Method, qualified_name = ''a.K.run'', declaring_file = ''a.py'', declaring_line = 8 \<rparr>]"

definition example_env ::
  "(entity list, entity, entity list \<times> (string \<times> bool) list, lookup_error) env"
where
  "example_env =
     \<lparr> glob = (\<lambda>pattern. if pattern = ''a.py'' then [''a.py''] else []),
       CallGraphVisitor = (\<lambda>filenames logger. example_table),
       get_node = lookup,
       filter_visitor = (\<lambda>v node ns.
          filter (\<lambda>e. Some e = node \<or>
                      (case ns of None \<Rightarrow> False
                       | Some p \<Rightarrow> qualified_name e = p \<or>
                                   take (length p + 1) (qualified_name e) = p @ ''.'')) v),
       from_visitor = (\<lambda>v options logger. (v, options)) \<rparr>"

subsection \<open>Reading a trace\<close>

text \<open>
  The writers that ran, and the lookups that were made, in the order of the trace; the
  format and the graph of a writer; the command-line flag that asks for a format; and
  the flags that set a presentation option.
\<close>


fun run_of :: "('v, 'n, 'g) event \<Rightarrow> 'g writer list" where
  "run_of (E_run w) = [w]"
| "run_of _ = []"

definition runs :: "('v, 'n, 'g) event list \<Rightarrow> 'g writer list" where
  "runs t = concat (map run_of t)"

fun lookup_of :: "('v, 'n, 'g) event \<Rightarrow> (string \<times> string) list" where
  "lookup_of (E_get_node v ns n) = [(ns, n)]"
| "lookup_of _ = []"

definition lookups :: "('v, 'n, 'g) event list \<Rightarrow> (string \<times> string) list" where
  "lookups t = concat (map lookup_of t)"

datatype format = DOT | HTML | SVG | TGF | YED

fun format_of :: "'g writer \<Rightarrow> format" where
  "format_of (DotWriter g os out lg) = DOT"
| "format_of (HTMLWriter g os out lg) = HTML"
| "format_of (SVGWriter g os out lg) = SVG"
| "format_of (TgfWriter g out lg) = TGF"
| "format_of (YedWriter g out lg) = YED"

fun graph_of :: "'g writer \<Rightarrow> 'g" where
  "graph_of (DotWriter g os out lg) = g"
| "graph_of (HTMLWriter g os out lg) = g"
| "graph_of (SVGWriter g os out lg) = g"
| "graph_of (TgfWriter g out lg) = g"
| "graph_of (YedWriter g out lg) = g"

fun format_flag :: "format \<Rightarrow> flag" where
  "format_flag DOT = Dot"
| "format_flag HTML = Html"
| "format_flag SVG = Svg"
| "format_flag TGF = Tgf"
| "format_flag YED = Yed"

fun presentation_flag :: "flag \<Rightarrow> bool" where
  "presentation_flag Defines = True"
| "presentation_flag No_defines = True"
| "presentation_flag Uses = True"
| "presentation_flag No_uses = True"
| "presentation_flag Colored = True"
| "presentation_flag Grouped_alt = True"
| "presentation_flag Grouped = True"
| "presentation_flag Nested_groups = True"
| "presentation_flag Annotated = True"
| "presentation_flag _ = False"

section \<open>Properties\<close>

subsection \<open>What the flags of an invocation do to the options\<close>


lemma apply_flags_append: "apply_flags (xs @ ys) opts = apply_flags ys (apply_flags xs opts)"
  by (induction xs arbitrary: opts) simp_all

lemma nested_groups_apply_flags:
  "nested_groups (apply_flags fs opts) = (nested_groups opts \<or> Nested_groups \<in> set fs)"
proof (induction fs arbitrary: opts)
  case Nil then show ?case by simp
next
  case (Cons f fs) then show ?case by (cases f) auto
qed

lemma function_apply_flags:
  "\<forall>s. Function s \<notin> set fs \<Longrightarrow> function' (apply_flags fs opts) = function' opts"
proof (induction fs arbitrary: opts)
  case Nil then show ?case by simp
next
  case (Cons f fs) then show ?case by (cases f) auto
qed

lemma namespace_apply_flags:
  "\<forall>s. Namespace s \<notin> set fs \<Longrightarrow> namespace (apply_flags fs opts) = namespace opts"
proof (induction fs arbitrary: opts)
  case Nil then show ?case by simp
next
  case (Cons f fs) then show ?case by (cases f) auto
qed

lemma logname_apply_flags:
  "\<forall>s. Log s \<notin> set fs \<Longrightarrow> logname (apply_flags fs opts) = logname opts"
proof (induction fs arbitrary: opts)
  case Nil then show ?case by simp
next
  case (Cons f fs) then show ?case by (cases f) auto
qed


lemma format_apply_flags:
  "dot (apply_flags fs opts) = (dot opts \<or> Dot \<in> set fs)"
  "html (apply_flags fs opts) = (html opts \<or> Html \<in> set fs)"
  "svg (apply_flags fs opts) = (svg opts \<or> Svg \<in> set fs)"
  "tgf (apply_flags fs opts) = (tgf opts \<or> Tgf \<in> set fs)"
  "yed (apply_flags fs opts) = (yed opts \<or> Yed \<in> set fs)"
proof (induction fs arbitrary: opts)
  case Nil
  { case 1 show ?case by simp }
  { case 2 show ?case by simp }
  { case 3 show ?case by simp }
  { case 4 show ?case by simp }
  { case 5 show ?case by simp }
next
  case (Cons f fs)
  { case 1 show ?case using Cons.IH(1) by (cases f) auto }
  { case 2 show ?case using Cons.IH(2) by (cases f) auto }
  { case 3 show ?case using Cons.IH(3) by (cases f) auto }
  { case 4 show ?case using Cons.IH(4) by (cases f) auto }
  { case 5 show ?case using Cons.IH(5) by (cases f) auto }
qed

lemma presentation_apply_flags:
  "\<forall>f\<in>set fs. \<not> presentation_flag f \<Longrightarrow>
     graph_options (imply_grouped (apply_flags fs opts)) = graph_options (imply_grouped opts)"
proof (induction fs arbitrary: opts)
  case Nil then show ?case by simp
next
  case (Cons f fs)
  then show ?case by (cases f) (simp_all add: graph_options_def imply_grouped_def)
qed

subsection \<open>The shape of a trace\<close>

lemma focus_node_events:
  "set (fst (focus_node env v f)) \<subseteq> range (\<lambda>(ns, n). E_get_node v ns n)"
  by (cases "(env, v, f)" rule: focus_node.cases) (auto simp: Let_def)

lemma select_events:
  "e \<in> set (fst (select env v opts)) \<Longrightarrow>
     (\<exists>ns n. e = E_get_node v ns n) \<or> (\<exists>node p. e = E_filter v node p)"
  using focus_node_events [of env v "function' opts"]
  by (auto simp: select_def split: if_splits prod.splits sum.splits)

lemma select_unfocused:
  "\<not> truthy (function' opts) \<Longrightarrow> \<not> truthy (namespace opts) \<Longrightarrow>
     select env v opts = ([], Inr v)"
  by (simp add: select_def)

lemma runs_append: "runs (xs @ ys) = runs xs @ runs ys"
  by (simp add: runs_def)

lemma runs_map_E_run: "runs (map E_run ws) = ws"
  by (induction ws) (simp_all add: runs_def)

lemma runs_select: "runs (fst (select env v opts)) = []"
proof -
  have "run_of e = []" if "e \<in> set (fst (select env v opts))" for e
    using select_events [OF that] by auto
  then show ?thesis by (simp add: runs_def)
qed

lemma main_found:
  assumes "concat (map (glob env) args) \<noteq> []"
  shows "main env flags args =
     (let opts = imply_grouped (parse_args flags);
          filenames = concat (map (glob env) args);
          logger = setup_logger opts;
          v = CallGraphVisitor env filenames logger
      in case select env v opts of
           (t, Inl e) \<Rightarrow> (E_CallGraphVisitor filenames logger # t, Raised e)
         | (t, Inr v') \<Rightarrow>
             (E_CallGraphVisitor filenames logger # t
                @ [E_from_visitor v' (graph_options opts) logger]
                @ map E_run (writers opts (from_visitor env v' (graph_options opts) logger) logger),
              Returned))"
  using assms by (auto simp: main_def Let_def)

lemma main_not_found:
  "concat (map (glob env) args) = [] \<Longrightarrow> fst (main env flags args) = []"
  by (simp add: main_def Let_def)

lemma main_trace_cases:
  assumes "concat (map (glob env) args) \<noteq> []"
  obtains t e where
      "select env (CallGraphVisitor env (concat (map (glob env) args))
          (setup_logger (imply_grouped (parse_args flags))))
          (imply_grouped (parse_args flags)) = (t, Inl e)"
      "main env flags args =
         (E_CallGraphVisitor (concat (map (glob env) args))
            (setup_logger (imply_grouped (parse_args flags))) # t, Raised e)"
  | t v' where
      "select env (CallGraphVisitor env (concat (map (glob env) args))
          (setup_logger (imply_grouped (parse_args flags))))
          (imply_grouped (parse_args flags)) = (t, Inr v')"
      "main env flags args =
         (E_CallGraphVisitor (concat (map (glob env) args))
            (setup_logger (imply_grouped (parse_args flags))) # t
          @ [E_from_visitor v' (graph_options (imply_grouped (parse_args flags)))
               (setup_logger (imply_grouped (parse_args flags)))]
          @ map E_run (writers (imply_grouped (parse_args flags))
               (from_visitor env v' (graph_options (imply_grouped (parse_args flags)))
                  (setup_logger (imply_grouped (parse_args flags))))
               (setup_logger (imply_grouped (parse_args flags)))),
          Returned)"
proof -
  let ?sel = "select env (CallGraphVisitor env (concat (map (glob env) args))
          (setup_logger (imply_grouped (parse_args flags))))
          (imply_grouped (parse_args flags))"
  obtain t r where sel: "?sel = (t, r)" by (cases ?sel)
  show thesis
  proof (cases r)
    case (Inl e)
    with sel that(1) [of t e] main_found [OF assms, of flags] show thesis
      by (simp add: Let_def)
  next
    case (Inr v')
    with sel that(2) [of t v'] main_found [OF assms, of flags] show thesis
      by (simp add: Let_def)
  qed
qed

lemma main_from_visitor_event:
  assumes "E_from_visitor v go lg \<in> set (fst (main env flags args))"
  shows "go = graph_options (imply_grouped (parse_args flags)) \<and>
         lg = setup_logger (imply_grouped (parse_args flags))"
proof (cases "concat (map (glob env) args) = []")
  case True
  with assms show ?thesis by (simp add: main_not_found)
next
  case False
  then show ?thesis
  proof (cases rule: main_trace_cases [where flags = flags])
    case (1 t e)
    with assms have "E_from_visitor v go lg \<in> set (fst (select env (CallGraphVisitor env (concat (map (glob env) args))
          (setup_logger (imply_grouped (parse_args flags))))
          (imply_grouped (parse_args flags))))" by simp
    from select_events [OF this] show ?thesis by auto
  next
    case (2 t v')
    have "E_from_visitor v go lg \<notin> set t"
    proof
      assume "E_from_visitor v go lg \<in> set t"
      with 2(1) have "E_from_visitor v go lg \<in> set (fst (select env (CallGraphVisitor env (concat (map (glob env) args))
          (setup_logger (imply_grouped (parse_args flags))))
          (imply_grouped (parse_args flags))))" by simp
      from select_events [OF this] show False by auto
    qed
    with assms 2(2) show ?thesis by auto
  qed
qed


subsection \<open>Evaluating a run, and the writers of a run\<close>

lemmas run_defs =
  main_def parse_args_def default_options_def imply_grouped_def graph_options_def
  setup_logger_def getLogger_def setLevel_def addHandler_def select_def writers_def
  example_env_def Let_def

lemma imply_grouped_fields:
  "dot (imply_grouped opts) = dot opts"
  "html (imply_grouped opts) = html opts"
  "svg (imply_grouped opts) = svg opts"
  "tgf (imply_grouped opts) = tgf opts"
  "yed (imply_grouped opts) = yed opts"
  "function' (imply_grouped opts) = function' opts"
  "namespace (imply_grouped opts) = namespace opts"
  "logname (imply_grouped opts) = logname opts"
  "verbose (imply_grouped opts) = verbose opts"
  "very_verbose (imply_grouped opts) = very_verbose opts"
  "nested_groups (imply_grouped opts) = nested_groups opts"
  by (simp_all add: imply_grouped_def)

lemma writers_formats:
  "map format_of (writers opts g lg) =
     filter (\<lambda>k. case k of DOT \<Rightarrow> dot opts | HTML \<Rightarrow> html opts | SVG \<Rightarrow> svg opts
                   | TGF \<Rightarrow> tgf opts | YED \<Rightarrow> yed opts) [DOT, HTML, SVG, TGF, YED]"
  by (simp add: writers_def)

lemma writers_graph: "w \<in> set (writers opts g lg) \<Longrightarrow> graph_of w = g"
  by (auto simp: writers_def split: if_splits)

lemma requested_format:
  "(case k of DOT \<Rightarrow> dot (imply_grouped (parse_args flags))
            | HTML \<Rightarrow> html (imply_grouped (parse_args flags))
            | SVG \<Rightarrow> svg (imply_grouped (parse_args flags))
            | TGF \<Rightarrow> tgf (imply_grouped (parse_args flags))
            | YED \<Rightarrow> yed (imply_grouped (parse_args flags))) = (format_flag k \<in> set flags)"
  by (cases k)
     (simp_all add: imply_grouped_fields parse_args_def format_apply_flags default_options_def)

lemma runs_Cons: "runs (e # t) = run_of e @ runs t"
  by (simp add: runs_def)

lemma runs_Nil: "runs [] = []"
  by (simp add: runs_def)

subsection \<open>Splitting and joining, and the lookups of a run\<close>

lemma split_from_nodot: "sep \<notin> set w \<Longrightarrow> split_from sep cur w = [cur @ w]"
  by (induction w arbitrary: cur) auto

lemma split_from_append:
  "sep \<notin> set w \<Longrightarrow> split_from sep cur (w @ sep # rest) = (cur @ w) # split_from sep [] rest"
  by (induction w arbitrary: cur) auto


lemma split_join:
  "ws \<noteq> [] \<Longrightarrow> \<forall>w\<in>set ws. sep \<notin> set w \<Longrightarrow> str_split sep (str_join [sep] ws) = ws"
proof (induction "[sep]" ws rule: str_join.induct)
  case 1
  then show ?case by simp
next
  case (2 x)
  then show ?case by (simp add: str_split_def split_from_nodot)
next
  case (3 x y ys)
  then show ?case
    by (simp add: str_split_def split_from_append)
qed



lemma join_not_Nil: "leaf \<noteq> [] \<Longrightarrow> str_join sep (segs @ [leaf]) \<noteq> []"
  by (induction sep segs rule: str_join.induct) auto

lemma lookups_append: "lookups (xs @ ys) = lookups xs @ lookups ys"
  by (simp add: lookups_def)

lemma lookups_Cons: "lookups (e # t) = lookup_of e @ lookups t"
  by (simp add: lookups_def)

lemma lookups_Nil: "lookups [] = []"
  by (simp add: lookups_def)

lemma lookups_map_E_run: "lookups (map E_run ws) = []"
  by (induction ws) (simp_all add: lookups_def)

lemma focus_node_lookups:
  "lookups (fst (focus_node env v f)) =
     (case f of Some (c # cs) \<Rightarrow> [(focus_namespace (c # cs), function_name (c # cs))]
      | _ \<Rightarrow> [])"
  by (cases "(env, v, f)" rule: focus_node.cases) (simp_all add: Let_def lookups_def)

lemma select_lookups:
  "lookups (fst (select env v opts)) =
     (case function' opts of Some (c # cs) \<Rightarrow> [(focus_namespace (c # cs), function_name (c # cs))]
      | _ \<Rightarrow> [])"
proof (cases "truthy (function' opts) \<or> truthy (namespace opts)")
  case True
  obtain t r where fn: "focus_node env v (function' opts) = (t, r)"
    by (cases "focus_node env v (function' opts)")
  have "lookups (fst (select env v opts)) = lookups t"
    using True fn by (cases r) (simp_all add: select_def lookups_append lookups_Cons lookups_Nil)
  with focus_node_lookups [of env v "function' opts"] fn show ?thesis by simp
next
  case False
  then have "\<not> truthy (function' opts)" by simp
  then have "(case function' opts of Some (c # cs) \<Rightarrow> [(focus_namespace (c # cs), function_name (c # cs))]
      | _ \<Rightarrow> []) = []"
    by (cases "function' opts" rule: truthy.cases) simp_all
  with False show ?thesis by (simp add: select_def lookups_Nil)
qed

lemma main_lookups_found:
  assumes "concat (map (glob env) args) \<noteq> []"
  shows "lookups (fst (main env flags args)) =
     (case function' (parse_args flags) of
        Some (c # cs) \<Rightarrow> [(focus_namespace (c # cs), function_name (c # cs))]
      | _ \<Rightarrow> [])"
proof -
  let ?opts = "imply_grouped (parse_args flags)"
  let ?v = "CallGraphVisitor env (concat (map (glob env) args)) (setup_logger ?opts)"
  have sel: "lookups (fst (select env ?v ?opts)) =
     (case function' (parse_args flags) of
        Some (c # cs) \<Rightarrow> [(focus_namespace (c # cs), function_name (c # cs))]
      | _ \<Rightarrow> [])"
    by (simp only: select_lookups imply_grouped_fields)
  from assms show ?thesis
  proof (cases rule: main_trace_cases [where flags = flags])
    case (1 t e)
    from 1(1) have "lookups t = lookups (fst (select env ?v ?opts))" by simp
    moreover from 1(2) have "lookups (fst (main env flags args)) = lookups t"
      by (simp add: lookups_Cons)
    ultimately show ?thesis using sel by simp
  next
    case (2 t v')
    from 2(1) have "lookups t = lookups (fst (select env ?v ?opts))" by simp
    moreover from 2(2) have "lookups (fst (main env flags args)) = lookups t"
      by (simp add: lookups_Cons lookups_append lookups_map_E_run)
    ultimately show ?thesis using sel by simp
  qed
qed

lemma main_lookups_not_found:
  "concat (map (glob env) args) = [] \<Longrightarrow> lookups (fst (main env flags args)) = []"
  by (simp add: main_not_found lookups_Nil)

subsection \<open>The lookup, and a run with a focus\<close>






subsection \<open>Aborting without input files\<close>

text \<open>
  C2. With no filename argument, or with arguments whose glob expansion is empty,
  \<^verbatim>\<open>main\<close> ends in \<^verbatim>\<open>parser.error\<close> with a message that says which of the two
  happened, and its trace is empty: no \<^verbatim>\<open>CallGraphVisitor\<close> was constructed and
  nothing else was called.
\<close>

theorem main_without_files:
  "(args = [] \<longrightarrow>
      main env flags args = ([], ParserError ''Need one or more filenames to process'')) \<and>
   (args \<noteq> [] \<and> concat (map (glob env) args) = [] \<longrightarrow>
      main env flags args =
        ([], ParserError (''No files found matching given glob: '' @ str_join '' '' args)))"
  by (simp add: main_def Let_def)

theorem main_without_files_witness:
  "main example_env [Dot] [] = ([], ParserError ''Need one or more filenames to process'') \<and>
   main example_env [Dot] [''b.py'', ''c*''] =
     ([], ParserError ''No files found matching given glob: b.py c*'')"
  using main_without_files [of "[]" example_env "[Dot]"]
    main_without_files [of "[''b.py'', ''c*'']" example_env "[Dot]"]
  by (simp add: example_env_def)

subsection \<open>No focus, no filter\<close>

text \<open>
  C1. When the invocation gives neither \<^verbatim>\<open>--function\<close> nor \<^verbatim>\<open>--namespace\<close> and
  input files are found, the run consists of the constructor call, the call of the
  presentation builder and the writers, and nothing else: \<^verbatim>\<open>filter\<close> is not called,
  and the visitor handed to \<^verbatim>\<open>VisualGraph.from_visitor\<close> is the one the constructor
  returned, whatever analysis that is.
\<close>

theorem main_unfiltered:
  assumes "\<forall>s. Function s \<notin> set flags" and "\<forall>s. Namespace s \<notin> set flags"
    and "concat (map (glob env) args) \<noteq> []"
  shows "\<exists>lg go ws. main env flags args =
           ([E_CallGraphVisitor (concat (map (glob env) args)) lg,
             E_from_visitor (CallGraphVisitor env (concat (map (glob env) args)) lg) go lg]
            @ map E_run ws, Returned)"
proof -
  let ?opts = "imply_grouped (parse_args flags)"
  have "function' ?opts = None" "namespace ?opts = None"
    using assms(1,2)
    by (simp_all add: imply_grouped_fields parse_args_def function_apply_flags
        namespace_apply_flags default_options_def)
  then have "select env v ?opts = ([], Inr v)" for v
    by (simp add: select_unfocused)
  then show ?thesis
    by (simp add: main_found [OF assms(3)] Let_def) blast
qed

theorem main_unfiltered_witness:
  "main example_env [Dot] [''a.py''] =
     ([E_CallGraphVisitor [''a.py''] \<lparr>level = WARN, handlers = [StreamHandler]\<rparr>,
       E_from_visitor example_table (graph_options default_options)
         \<lparr>level = WARN, handlers = [StreamHandler]\<rparr>,
       E_run (DotWriter (example_table, graph_options default_options) [''rankdir=TB''] None
         \<lparr>level = WARN, handlers = [StreamHandler]\<rparr>)], Returned)"
  using main_unfiltered [of "[Dot]" example_env "[''a.py'']"]
  by (simp add: run_defs)

subsection \<open>The presentation options\<close>

text \<open>
  C4. The defaults of the presentation options are true for \<open>draw_defines\<close> and
  \<open>draw_uses\<close> and false for \<open>colored\<close>, \<open>grouped_alt\<close>, \<open>grouped\<close>,
  \<open>nested_groups\<close> and \<open>annotated\<close>; and in an invocation that sets none of the
  presentation flags, every call of the presentation builder gets a dictionary of
  exactly these seven keys with exactly these values.
\<close>

theorem presentation_defaults:
  "graph_options default_options =
     [(''draw_defines'', True), (''draw_uses'', True), (''colored'', False),
      (''grouped_alt'', False), (''grouped'', False), (''nested_groups'', False),
      (''annotated'', False)] \<and>
   ((\<forall>f\<in>set flags. \<not> presentation_flag f) \<longrightarrow>
      (\<forall>v go lg. E_from_visitor v go lg \<in> set (fst (main env flags args)) \<longrightarrow>
         go = [(''draw_defines'', True), (''draw_uses'', True), (''colored'', False),
               (''grouped_alt'', False), (''grouped'', False), (''nested_groups'', False),
               (''annotated'', False)]))"
proof (intro conjI impI allI)
  show d: "graph_options default_options =
     [(''draw_defines'', True), (''draw_uses'', True), (''colored'', False),
      (''grouped_alt'', False), (''grouped'', False), (''nested_groups'', False),
      (''annotated'', False)]"
    by (simp add: graph_options_def default_options_def)
  fix v go lg
  assume none: "\<forall>f\<in>set flags. \<not> presentation_flag f"
    and ev: "E_from_visitor v go lg \<in> set (fst (main env flags args))"
  have "imply_grouped default_options = default_options"
    by (simp add: imply_grouped_def default_options_def)
  with presentation_apply_flags [OF none, of default_options]
  have "graph_options (imply_grouped (parse_args flags)) = graph_options default_options"
    by (simp add: parse_args_def)
  with main_from_visitor_event [OF ev] d
  show "go = [(''draw_defines'', True), (''draw_uses'', True), (''colored'', False),
               (''grouped_alt'', False), (''grouped'', False), (''nested_groups'', False),
               (''annotated'', False)]"
    by simp
qed

theorem presentation_defaults_witness:
  "\<not> presentation_flag Tgf \<and> \<not> presentation_flag Verbose \<and>
   E_from_visitor example_table
     [(''draw_defines'', True), (''draw_uses'', True), (''colored'', False),
      (''grouped_alt'', False), (''grouped'', False), (''nested_groups'', False),
      (''annotated'', False)]
     \<lparr>level = INFO, handlers = [StreamHandler]\<rparr>
     \<in> set (fst (main example_env [Tgf, Verbose] [''a.py'']))"
  using presentation_defaults [of "[Tgf, Verbose]" example_env "[''a.py'']"]
  by (simp add: run_defs)

text \<open>
  C5. In an invocation that sets \<^verbatim>\<open>--nested-groups\<close>, whatever else it sets, the
  dictionary handed to the presentation builder has \<open>nested_groups\<close> and \<open>grouped\<close>
  both true.
\<close>

theorem nested_groups_implies_grouped:
  assumes "Nested_groups \<in> set flags"
    and "E_from_visitor v go lg \<in> set (fst (main env flags args))"
  shows "map_of go ''nested_groups'' = Some True \<and> map_of go ''grouped'' = Some True"
proof -
  have "nested_groups (parse_args flags)"
    using assms(1) by (simp add: parse_args_def nested_groups_apply_flags)
  then have "nested_groups (imply_grouped (parse_args flags))"
    and "grouped (imply_grouped (parse_args flags))"
    by (simp_all add: imply_grouped_def)
  with main_from_visitor_event [OF assms(2)] show ?thesis
    by (simp add: graph_options_def)
qed

theorem nested_groups_implies_grouped_witness:
  "Nested_groups \<in> set [Nested_groups, Dot] \<and>
   E_from_visitor example_table
     [(''draw_defines'', True), (''draw_uses'', True), (''colored'', False),
      (''grouped_alt'', False), (''grouped'', True), (''nested_groups'', True),
      (''annotated'', False)]
     \<lparr>level = WARN, handlers = [StreamHandler]\<rparr>
     \<in> set (fst (main example_env [Nested_groups, Dot] [''a.py''])) \<and>
   map_of [(''draw_defines'', True), (''draw_uses'', True), (''colored'', False),
      (''grouped_alt'', False), (''grouped'', True), (''nested_groups'', True),
      (''annotated'', False)] ''grouped'' = Some True"
  using nested_groups_implies_grouped [of "[Nested_groups, Dot]" example_table
    "[(''draw_defines'', True), (''draw_uses'', True), (''colored'', False),
      (''grouped_alt'', False), (''grouped'', True), (''nested_groups'', True),
      (''annotated'', False)]" "\<lparr>level = WARN, handlers = [StreamHandler]\<rparr>"
    example_env "[''a.py'']"]
  by (simp add: run_defs)

subsection \<open>The writers\<close>

text \<open>
  C8. In a run that returns, the writers that run are exactly those whose format flag
  the invocation sets, once each, in the fixed order dot, html, svg, tgf, yed; they
  run after the presentation builder and each is constructed on the one graph that
  the builder returned. A run that does not return runs no writer, and neither does an
  invocation that sets no format flag.
\<close>

theorem writers_in_order:
  "(snd (main env flags args) = Returned \<longrightarrow>
      (\<exists>pre v go lg.
          fst (main env flags args) =
            pre @ E_from_visitor v go lg # map E_run (runs (fst (main env flags args))) \<and>
          runs pre = [] \<and>
          (\<forall>w\<in>set (runs (fst (main env flags args))). graph_of w = from_visitor env v go lg)) \<and>
      map format_of (runs (fst (main env flags args))) =
        filter (\<lambda>k. format_flag k \<in> set flags) [DOT, HTML, SVG, TGF, YED]) \<and>
   (snd (main env flags args) \<noteq> Returned \<longrightarrow> runs (fst (main env flags args)) = []) \<and>
   ((\<forall>k. format_flag k \<notin> set flags) \<longrightarrow> runs (fst (main env flags args)) = [])"
proof (cases "concat (map (glob env) args) = []")
  case True
  then show ?thesis
    by (auto simp: main_def Let_def runs_Nil)
next
  case False
  let ?opts = "imply_grouped (parse_args flags)"
  let ?lg = "setup_logger ?opts"
  from False show ?thesis
  proof (cases rule: main_trace_cases [where flags = flags])
    case (1 t e)
    have "runs t = []" using runs_select [of env _ ?opts] 1(1) by (metis fst_conv)
    with 1(2) show ?thesis by (simp add: runs_Cons)
  next
    case (2 t v')
    let ?g = "from_visitor env v' (graph_options ?opts) ?lg"
    let ?ws = "writers ?opts ?g ?lg"
    have t: "runs t = []" using runs_select [of env _ ?opts] 2(1) by (metis fst_conv)
    have tr: "fst (main env flags args) =
        (E_CallGraphVisitor (concat (map (glob env) args)) ?lg # t)
          @ E_from_visitor v' (graph_options ?opts) ?lg # map E_run ?ws"
      using 2(2) by simp
    have pre: "runs (E_CallGraphVisitor (concat (map (glob env) args)) ?lg # t) = []"
      using t by (simp add: runs_Cons)
    have r: "runs (fst (main env flags args)) = ?ws"
      by (simp add: tr runs_append runs_Cons t runs_map_E_run)
    have f: "map format_of ?ws = filter (\<lambda>k. format_flag k \<in> set flags) [DOT, HTML, SVG, TGF, YED]"
      unfolding writers_formats requested_format ..
    have g: "\<forall>w\<in>set ?ws. graph_of w = ?g"
      by (rule ballI) (erule writers_graph)
    have shape: "\<exists>pre v go lg.
          fst (main env flags args) =
            pre @ E_from_visitor v go lg # map E_run (runs (fst (main env flags args))) \<and>
          runs pre = [] \<and>
          (\<forall>w\<in>set (runs (fst (main env flags args))). graph_of w = from_visitor env v go lg)"
      unfolding r using tr pre g by blast
    have none: "runs (fst (main env flags args)) = []" if "\<forall>k. format_flag k \<notin> set flags"
    proof -
      from that f have "map format_of ?ws = []" by simp
      with r show ?thesis by simp
    qed
    have f': "map format_of (runs (fst (main env flags args))) =
        filter (\<lambda>k. format_flag k \<in> set flags) [DOT, HTML, SVG, TGF, YED]"
      by (simp only: r f)
    have ret: "snd (main env flags args) = Returned"
      by (simp only: 2(2) snd_conv)
    from ret shape f' none show ?thesis by blast
  qed
qed

theorem writers_in_order_witness:
  "snd (main example_env [Yed, Dot, Tgf] [''a.py'']) = Returned \<and>
   map format_of (runs (fst (main example_env [Yed, Dot, Tgf] [''a.py'']))) = [DOT, TGF, YED] \<and>
   snd (main example_env [Yed, Dot, Function ''b.f''] [''a.py'']) = Raised NotFound \<and>
   runs (fst (main example_env [Yed, Dot, Function ''b.f''] [''a.py''])) = [] \<and>
   runs (fst (main example_env [Verbose] [''a.py''])) = []"
  using writers_in_order [of example_env "[Yed, Dot, Tgf]" "[''a.py'']"]
    writers_in_order [of example_env "[Yed, Dot, Function ''b.f'']" "[''a.py'']"]
    writers_in_order [of example_env "[Verbose]" "[''a.py'']"]
  by (simp add: run_defs runs_def function_name_def focus_namespace_def str_split_def
      lookup_def matches_def example_table_def top_level_def display_name_def)

subsection \<open>The logger\<close>




subsection \<open>The focus\<close>

text \<open>
  C6. A dotted identifier is a sequence of non-empty, dot-free segments joined by
  dots. Parsing it as lines 125 and 126 do gives its last segment as the leaf name and
  the dot-joined segments before it as the namespace (\<open>a.b.f\<close> gives \<open>f\<close> in
  \<open>a.b\<close>); and when it is the value of \<^verbatim>\<open>--function\<close> and input files are found, the
  run makes exactly one lookup, with exactly that namespace and that name.
\<close>

theorem focus_of_dotted_identifier:
  assumes "\<forall>w\<in>set (segs @ [leaf]). w \<noteq> [] \<and> CHR ''.'' \<notin> set w"
  shows "function_name (str_join ''.'' (segs @ [leaf])) = leaf \<and>
         focus_namespace (str_join ''.'' (segs @ [leaf])) = str_join ''.'' segs \<and>
         (function' (parse_args flags) = Some (str_join ''.'' (segs @ [leaf])) \<and>
          concat (map (glob env) args) \<noteq> [] \<longrightarrow>
            lookups (fst (main env flags args)) = [(str_join ''.'' segs, leaf)])"
proof -
  let ?s = "str_join ''.'' (segs @ [leaf])"
  have "\<forall>w\<in>set (segs @ [leaf]). CHR ''.'' \<notin> set w" using assms by blast
  then have sp: "str_split CHR ''.'' ?s = segs @ [leaf]"
    using split_join [of "segs @ [leaf]" "CHR ''.''"] by simp
  then have n: "function_name ?s = leaf" and ns: "focus_namespace ?s = str_join ''.'' segs"
    by (simp_all add: function_name_def focus_namespace_def)
  have "leaf \<noteq> []" using assms by simp
  then have "?s \<noteq> []" by (rule join_not_Nil)
  then obtain c cs where s: "?s = c # cs" by (cases ?s) auto
  have "lookups (fst (main env flags args)) = [(str_join ''.'' segs, leaf)]"
    if f: "function' (parse_args flags) = Some ?s" and g: "concat (map (glob env) args) \<noteq> []"
  proof -
    have "lookups (fst (main env flags args)) = [(focus_namespace (c # cs), function_name (c # cs))]"
      using f unfolding main_lookups_found [OF g] s by simp
    with n ns show ?thesis unfolding s by simp
  qed
  with n ns show ?thesis by blast
qed

theorem focus_of_dotted_identifier_witness:
  "str_join ''.'' ([''a'', ''b''] @ [''f'']) = ''a.b.f'' \<and>
   function_name ''a.b.f'' = ''f'' \<and> focus_namespace ''a.b.f'' = ''a.b'' \<and>
   lookups (fst (main example_env [Dot, Function ''a.b.f''] [''a.py''])) = [(''a.b'', ''f'')]"
proof -
  have h: "\<forall>w\<in>set ([''a'', ''b''] @ [''f'']). w \<noteq> [] \<and> CHR ''.'' \<notin> set w"
    by simp
  have j: "str_join ''.'' ([''a'', ''b''] @ [''f'']) = ''a.b.f''" "str_join ''.'' [''a'', ''b''] = ''a.b''"
    by simp_all
  have f: "function' (parse_args [Dot, Function ''a.b.f'']) = Some ''a.b.f''"
    by (simp add: parse_args_def)
  have g: "concat (map (glob example_env) [''a.py'']) \<noteq> []"
    by (simp add: example_env_def)
  from focus_of_dotted_identifier [OF h, of "[Dot, Function ''a.b.f'']" example_env "[''a.py'']"]
  show ?thesis unfolding j using f g by blast
qed

text \<open>
  C9. For a value of \<^verbatim>\<open>--function\<close> without a dot, the leaf name is the whole value and
  the namespace is the empty string, so every lookup that the run makes is
  \<open>get_node "" value\<close>; and the run makes that lookup, once, whenever lines 125 to 127
  are reached, that is, when the value passes the truth test of line 124 and input
  files are found.
\<close>

theorem focus_without_dot:
  assumes "CHR ''.'' \<notin> set s"
  shows "function_name s = s \<and> focus_namespace s = [] \<and>
         (function' (parse_args flags) = Some s \<longrightarrow>
            (\<forall>p\<in>set (lookups (fst (main env flags args))). p = ([], s)) \<and>
            (s \<noteq> [] \<and> concat (map (glob env) args) \<noteq> [] \<longrightarrow>
               lookups (fst (main env flags args)) = [([], s)]))"
proof -
  have sp: "str_split CHR ''.'' s = [s]"
    using assms by (simp add: str_split_def split_from_nodot)
  then have n: "function_name s = s" and ns: "focus_namespace s = []"
    by (simp_all add: function_name_def focus_namespace_def)
  have "(\<forall>p\<in>set (lookups (fst (main env flags args))). p = ([], s)) \<and>
            (s \<noteq> [] \<and> concat (map (glob env) args) \<noteq> [] \<longrightarrow>
               lookups (fst (main env flags args)) = [([], s)])"
    if f: "function' (parse_args flags) = Some s"
  proof (cases "concat (map (glob env) args) = []")
    case True
    then show ?thesis by (simp add: main_lookups_not_found)
  next
    case False
    show ?thesis
    proof (cases s)
      case Nil
      with f show ?thesis by (simp add: main_lookups_found [OF False])
    next
      case (Cons c cs)
      with f n ns show ?thesis by (simp add: main_lookups_found [OF False])
    qed
  qed
  with n ns show ?thesis by blast
qed

theorem focus_without_dot_witness:
  "CHR ''.'' \<notin> set ''a'' \<and> function_name ''a'' = ''a'' \<and> focus_namespace ''a'' = [] \<and>
   function' (parse_args [Function ''a'', Tgf]) = Some ''a'' \<and>
   lookups (fst (main example_env [Function ''a'', Tgf] [''a.py''])) = [([], ''a'')]"
proof -
  have h: "CHR ''.'' \<notin> set ''a''" by simp
  have f: "function' (parse_args [Function ''a'', Tgf]) = Some ''a''"
    by (simp add: parse_args_def)
  have g: "''a'' \<noteq> [] \<and> concat (map (glob example_env) [''a.py'']) \<noteq> []"
    by (simp add: example_env_def)
  from focus_without_dot [OF h, of "[Function ''a'', Tgf]" example_env "[''a.py'']"]
  show ?thesis using h f g by blast
qed

subsection \<open>The lookup of the focus\<close>



end
